theory Spec2Isabelle
  imports Complex_Main "HOL-Library.AList"
begin

section \<open>The document: elements held in a store\<close>

text \<open>
  The script mutates DOM elements in place and refers to them by identity (an entry's
  \<open>target\<close>, the members of a node list). An element reference is a \<open>node\<close>; the store
  maps each reference to the element's current attributes and class list.
\<close>

type_synonym node = nat

record element =
  attributes :: "(string \<times> string) list"
  classList :: "string list"

type_synonym dom = "node \<Rightarrow> element"

definition getAttribute :: "element \<Rightarrow> string \<Rightarrow> string option" where
  \<comment> \<open>\<open>el.getAttribute(name)\<close>: \<open>null\<close> (here \<open>None\<close>) when the attribute is absent\<close>
  "getAttribute el name = map_of (attributes el) name"

definition setAttribute :: "string \<Rightarrow> string \<Rightarrow> element \<Rightarrow> element" where
  "setAttribute name v el = el\<lparr>attributes := AList.update name v (attributes el)\<rparr>"

definition removeAttribute :: "string \<Rightarrow> element \<Rightarrow> element" where
  "removeAttribute name el = el\<lparr>attributes := AList.delete name (attributes el)\<rparr>"

definition elementId :: "element \<Rightarrow> string" where
  \<comment> \<open>\<open>el.id\<close> reflects the \<open>id\<close> attribute, the empty string when it is absent\<close>
  "elementId el = (case getAttribute el ''id'' of None \<Rightarrow> [] | Some v \<Rightarrow> v)"

definition classList_contains :: "string \<Rightarrow> element \<Rightarrow> bool" where
  "classList_contains tok el = (tok \<in> set (classList el))"

definition classList_add :: "string \<Rightarrow> element \<Rightarrow> element" where
  "classList_add tok el =
     (if tok \<in> set (classList el) then el else el\<lparr>classList := classList el @ [tok]\<rparr>)"

definition classList_remove :: "string \<Rightarrow> element \<Rightarrow> element" where
  "classList_remove tok el = el\<lparr>classList := removeAll tok (classList el)\<rparr>"

definition classList_toggle :: "string \<Rightarrow> bool \<Rightarrow> element \<Rightarrow> element" where
  \<comment> \<open>\<open>el.classList.toggle(tok, force)\<close>: with the second argument it adds or removes\<close>
  "classList_toggle tok force el =
     (if force then classList_add tok el else classList_remove tok el)"

fun forEach :: "('a \<Rightarrow> 's \<Rightarrow> 's) \<Rightarrow> 'a list \<Rightarrow> 's \<Rightarrow> 's" where
  "forEach f [] s = s"
| "forEach f (x # xs) s = forEach f xs (f x s)"

section \<open>Intersection entries and the two observer callbacks\<close>

record entry =
  target :: node
  isIntersecting :: bool

definition highlightLink :: "element \<Rightarrow> element \<Rightarrow> element" where
  \<comment> \<open>the body of \<open>tocLinks.forEach(link => ...)\<close> in \<open>initTOC\<close>, for the entry's target \<open>tgt\<close>\<close>
  "highlightLink tgt link =
     (let isActive = (getAttribute link ''href'' = Some (CHR ''#'' # elementId tgt));
          link' = classList_toggle ''active'' isActive link
      in if isActive then setAttribute ''aria-current'' ''true'' link'
         else removeAttribute ''aria-current'' link')"

definition tocEntry :: "node list \<Rightarrow> entry \<Rightarrow> dom \<Rightarrow> dom" where
  \<comment> \<open>the body of \<open>entries.forEach(entry => ...)\<close> in \<open>initTOC\<close>\<close>
  "tocEntry tocLinks e d =
     (if isIntersecting e
      then forEach (\<lambda>link d'. d'(link := highlightLink (d' (target e)) (d' link))) tocLinks d
      else d)"

definition tocCallback :: "node list \<Rightarrow> entry list \<Rightarrow> dom \<Rightarrow> dom" where
  "tocCallback tocLinks entries d = forEach (tocEntry tocLinks) entries d"

definition revealEntry :: "entry \<Rightarrow> dom \<Rightarrow> dom" where
  \<comment> \<open>the body of \<open>entries.forEach(entry => ...)\<close> in \<open>initRevealAnimations\<close>\<close>
  "revealEntry e d =
     (if isIntersecting e
      then d(target e := classList_add ''visible'' (d (target e)))
      else d)"

definition revealCallback :: "entry list \<Rightarrow> dom \<Rightarrow> dom" where
  "revealCallback entries d = forEach revealEntry entries d"

section \<open>Reading the state of an element\<close>

definition isActive :: "element \<Rightarrow> bool" where
  "isActive el = classList_contains ''active'' el"

definition ariaCurrent :: "element \<Rightarrow> string option" where
  "ariaCurrent el = getAttribute el ''aria-current''"

definition isVisible :: "element \<Rightarrow> bool" where
  "isVisible el = classList_contains ''visible'' el"

definition href :: "element \<Rightarrow> string option" where
  "href el = getAttribute el ''href''"

definition fragmentOf :: "element \<Rightarrow> string" where
  \<comment> \<open>the string a link's \<open>href\<close> is compared with: \<open>'#' + heading.id\<close>\<close>
  "fragmentOf heading = CHR ''#'' # elementId heading"

definition lastIntersecting :: "entry list \<Rightarrow> node option" where
  \<comment> \<open>the target of the most recently processed intersecting entry, if there is one\<close>
  "lastIntersecting es =
     (case filter isIntersecting es of [] \<Rightarrow> None | x # xs \<Rightarrow> Some (target (last (x # xs))))"

definition activeCount :: "node list \<Rightarrow> dom \<Rightarrow> nat" where
  "activeCount tocLinks d = length (filter (\<lambda>l. isActive (d l)) tocLinks)"

definition linksTo :: "node list \<Rightarrow> dom \<Rightarrow> node \<Rightarrow> nat" where
  \<comment> \<open>how many TOC links have the \<open>href\<close> that the callback compares with heading \<open>h\<close>\<close>
  "linksTo tocLinks d h =
     length (filter (\<lambda>l. href (d l) = Some (fragmentOf (d h))) tocLinks)"

definition hrefFragment :: "element \<Rightarrow> string option" where
  \<comment> \<open>the fragment of a link's \<open>href\<close> as a URL has it: what follows the first \<open>#\<close>;
      the script never computes it, it compares the whole attribute\<close>
  "hrefFragment el =
     (case href el of
        None \<Rightarrow> None
      | Some u \<Rightarrow>
          (if CHR ''#'' \<in> set u then Some (tl (dropWhile (\<lambda>c. c \<noteq> CHR ''#'') u)) else None))"

section \<open>The page: query results, media queries, observers\<close>

text \<open>
  What the host returns to the script is a parameter of the model: the results of the
  document queries, the media-query answers, and whether \<open>IntersectionObserver\<close> is
  defined at all (\<open>new IntersectionObserver\<close> raises a \<open>ReferenceError\<close> where it is not).
  \<open>nodes\<close> is the store of elements; \<open>getElementById\<close> and \<open>querySelectorAll\<close> stand for
  the two methods of \<open>document\<close>, \<open>querySelectorAllIn toc\<close> for \<open>toc.querySelectorAll\<close>,
  and \<open>matchMedia p q\<close> for \<open>window.matchMedia(q).matches\<close>. The threshold of an observer
  is kept as the decimal the script writes, \<open>0.1\<close> being \<open>1 / 10\<close>.
\<close>

datatype error = ReferenceError | SecurityError | QuotaExceededError

record observerInit =
  rootMargin :: "string option"
  threshold :: "rat option"

datatype callback = TocCallback "node list" | RevealCallback

record observer =
  callback :: callback
  init :: observerInit
  observed :: "node list"

record page =
  nodes :: dom
  getElementById :: "string \<Rightarrow> node option"
  querySelectorAll :: "string \<Rightarrow> node list"
  querySelectorAllIn :: "node \<Rightarrow> string \<Rightarrow> node list"
  matchMedia :: "string \<Rightarrow> bool"
  intersectionObserverDefined :: bool
  observers :: "observer list"

definition newIntersectionObserver ::
  "callback \<Rightarrow> observerInit \<Rightarrow> page \<Rightarrow> error + (nat \<times> page)" where
  "newIntersectionObserver cb opts p =
     (if intersectionObserverDefined p
      then Inr (length (observers p),
                p\<lparr>observers := observers p @ [\<lparr>callback = cb, init = opts, observed = []\<rparr>]\<rparr>)
      else Inl ReferenceError)"

definition observe :: "nat \<Rightarrow> node \<Rightarrow> page \<Rightarrow> page" where
  \<comment> \<open>\<open>observer.observe(el)\<close>; observing an element twice registers it once\<close>
  "observe i el p =
     (if i < length (observers p) \<and> el \<notin> set (observed (observers p ! i))
      then p\<lparr>observers :=
               (observers p)[i := (observers p ! i)\<lparr>observed := observed (observers p ! i) @ [el]\<rparr>]\<rparr>
      else p)"

definition initTOC :: "page \<Rightarrow> error + page" where
  "initTOC p =
     (case getElementById p ''toc'' of
        None \<Rightarrow> Inr p
      | Some toc \<Rightarrow>
          (let headings = querySelectorAll p ''h2[id], h3[id]'';
               tocLinks = querySelectorAllIn p toc ''a''
           in if length headings = 0 then Inr p
              else (case newIntersectionObserver (TocCallback tocLinks)
                           \<lparr>rootMargin = Some ''-20% 0% -80% 0%'', threshold = None\<rparr> p of
                      Inl e \<Rightarrow> Inl e
                    | Inr (observer, p') \<Rightarrow> Inr (forEach (observe observer) headings p'))))"

definition initRevealAnimations :: "page \<Rightarrow> error + page" where
  "initRevealAnimations p =
     (let elements = querySelectorAll p ''.reveal, .stagger''
      in if length elements = 0 then Inr p
         else if matchMedia p ''(prefers-reduced-motion: reduce)''
         then Inr (forEach
                     (\<lambda>el q. q\<lparr>nodes := (nodes q)(el := classList_add ''visible'' (nodes q el))\<rparr>)
                     elements p)
         else (case newIntersectionObserver RevealCallback
                      \<lparr>rootMargin = Some ''0px 0px -50px 0px'', threshold = Some (1 / 10)\<rparr> p of
                 Inl e \<Rightarrow> Inl e
               | Inr (observer, p') \<Rightarrow> Inr (forEach (observe observer) elements p')))"

section \<open>How the host reads a root margin\<close>

text \<open>
  The margin string is read by the host, not by the script. The host's reading is written
  out here for the integer pixel and percent components the script passes: one to four
  components separated by spaces, in the order top, right, bottom, left, and the two
  horizontal edges of the resulting root rectangle for a viewport of height \<open>vh\<close>,
  measured downwards from the top of the viewport.
\<close>

datatype length = Px int | Percent int

record margins =
  marginTop :: length
  marginRight :: length
  marginBottom :: length
  marginLeft :: length

definition digitValue :: "char \<Rightarrow> nat option" where
  "digitValue c =
     (let n = (of_char c :: nat) in if 48 \<le> n \<and> n \<le> 57 then Some (n - 48) else None)"

fun parseDigits :: "nat \<Rightarrow> string \<Rightarrow> nat \<times> string" where
  "parseDigits acc [] = (acc, [])"
| "parseDigits acc (c # cs) =
     (case digitValue c of None \<Rightarrow> (acc, c # cs) | Some v \<Rightarrow> parseDigits (10 * acc + v) cs)"

definition parseUnsigned :: "string \<Rightarrow> (nat \<times> string) option" where
  "parseUnsigned s =
     (case s of [] \<Rightarrow> None
      | c # cs \<Rightarrow> (case digitValue c of None \<Rightarrow> None | Some v \<Rightarrow> Some (parseDigits 0 s)))"

definition withUnit :: "int \<Rightarrow> string \<Rightarrow> length option" where
  "withUnit v u = (if u = ''px'' then Some (Px v) else if u = ''%'' then Some (Percent v) else None)"

definition parseLength :: "string \<Rightarrow> length option" where
  "parseLength s =
     (case s of
        [] \<Rightarrow> None
      | c # cs \<Rightarrow>
          (if c = CHR ''-''
           then (case parseUnsigned cs of None \<Rightarrow> None | Some (n, u) \<Rightarrow> withUnit (- int n) u)
           else (case parseUnsigned s of None \<Rightarrow> None | Some (n, u) \<Rightarrow> withUnit (int n) u)))"

fun splitSpaces :: "string \<Rightarrow> string \<Rightarrow> string list" where
  "splitSpaces cur [] = (if cur = [] then [] else [cur])"
| "splitSpaces cur (c # cs) =
     (if c = CHR '' ''
      then (if cur = [] then splitSpaces [] cs else cur # splitSpaces [] cs)
      else splitSpaces (cur @ [c]) cs)"

fun expandMargins :: "length list \<Rightarrow> margins option" where
  "expandMargins [a] =
     Some \<lparr>marginTop = a, marginRight = a, marginBottom = a, marginLeft = a\<rparr>"
| "expandMargins [a, b] =
     Some \<lparr>marginTop = a, marginRight = b, marginBottom = a, marginLeft = b\<rparr>"
| "expandMargins [a, b, c] =
     Some \<lparr>marginTop = a, marginRight = b, marginBottom = c, marginLeft = b\<rparr>"
| "expandMargins [a, b, c, d] =
     Some \<lparr>marginTop = a, marginRight = b, marginBottom = c, marginLeft = d\<rparr>"
| "expandMargins _ = None"

definition parseRootMargin :: "string \<Rightarrow> margins option" where
  "parseRootMargin s =
     (case those (map parseLength (splitSpaces [] s)) of
        None \<Rightarrow> None
      | Some ls \<Rightarrow> expandMargins ls)"

definition resolveLength :: "rat \<Rightarrow> length \<Rightarrow> rat" where
  "resolveLength vh l = (case l of Px n \<Rightarrow> of_int n | Percent q \<Rightarrow> of_int q * vh / 100)"

definition rootTop :: "rat \<Rightarrow> margins \<Rightarrow> rat" where
  "rootTop vh m = - resolveLength vh (marginTop m)"

definition rootBottom :: "rat \<Rightarrow> margins \<Rightarrow> rat" where
  "rootBottom vh m = vh + resolveLength vh (marginBottom m)"

section \<open>How the host decides that a box intersects\<close>

text \<open>
  Whether an entry says \<open>isIntersecting\<close> is decided by the host. Its decision is written
  out here for the vertical extent of a box that lies between the left and right edges of
  the root: the box has its top edge at \<open>t\<close> (measured downwards from the top of the
  viewport) and height \<open>ht\<close>. The box is reported intersecting when it meets the root
  rectangle and the visible share of it reaches the threshold; an absent root margin is
  \<open>0px\<close>, an absent threshold is \<open>0\<close>.
\<close>

definition overlaps :: "rat \<Rightarrow> rat \<Rightarrow> rat \<Rightarrow> rat \<Rightarrow> bool" where
  \<comment> \<open>the box meets or touches the root rectangle, whose edges are \<open>rt\<close> and \<open>rb\<close>\<close>
  "overlaps rt rb t ht = (t \<le> rb \<and> rt \<le> t + ht)"

definition visibleHeight :: "rat \<Rightarrow> rat \<Rightarrow> rat \<Rightarrow> rat \<Rightarrow> rat" where
  "visibleHeight rt rb t ht = max 0 (min rb (t + ht) - max rt t)"

definition intersectionRatio :: "rat \<Rightarrow> rat \<Rightarrow> rat \<Rightarrow> rat \<Rightarrow> rat" where
  "intersectionRatio rt rb t ht =
     (if 0 < ht then visibleHeight rt rb t ht / ht
      else if overlaps rt rb t ht then 1 else 0)"

definition hostReports :: "observerInit \<Rightarrow> rat \<Rightarrow> rat \<Rightarrow> rat \<Rightarrow> bool" where
  "hostReports opts vh t ht =
     (case parseRootMargin (case rootMargin opts of None \<Rightarrow> ''0px'' | Some s \<Rightarrow> s) of
        None \<Rightarrow> False
      | Some m \<Rightarrow>
          overlaps (rootTop vh m) (rootBottom vh m) t ht \<and>
          (case threshold opts of None \<Rightarrow> 0 | Some r \<Rightarrow> r)
            \<le> intersectionRatio (rootTop vh m) (rootBottom vh m) t ht)"

definition hostEntry :: "observerInit \<Rightarrow> rat \<Rightarrow> node \<Rightarrow> rat \<Rightarrow> rat \<Rightarrow> entry" where
  \<comment> \<open>the entry the host delivers for element \<open>n\<close> when its box is at \<open>t\<close> with height \<open>ht\<close>\<close>
  "hostEntry opts vh n t ht = \<lparr>target = n, isIntersecting = hostReports opts vh t ht\<rparr>"

definition tocOptions :: observerInit where
  \<comment> \<open>the options \<open>initTOC\<close> passes\<close>
  "tocOptions = \<lparr>rootMargin = Some ''-20% 0% -80% 0%'', threshold = None\<rparr>"



section \<open>The safe storage wrapper\<close>

text \<open>
  \<open>localStorage\<close> belongs to the host. Its two operations are parameters: each either
  raises or returns, and \<open>setItem\<close> returns the store it leaves behind.
\<close>

record 's storageArea =
  getItem :: "'s \<Rightarrow> string \<Rightarrow> error + string option"
  setItem :: "'s \<Rightarrow> string \<Rightarrow> string \<Rightarrow> error + 's"

definition storage_get :: "'s storageArea \<Rightarrow> 's \<Rightarrow> string \<Rightarrow> error + string option" where
  \<comment> \<open>\<open>try { return localStorage.getItem(key); } catch { return null; }\<close>\<close>
  "storage_get ls s key =
     (case getItem ls s key of Inr v \<Rightarrow> Inr v | Inl e \<Rightarrow> Inr None)"

definition storage_set :: "'s storageArea \<Rightarrow> 's \<Rightarrow> string \<Rightarrow> string \<Rightarrow> error + 's" where
  \<comment> \<open>\<open>try { localStorage.setItem(key, value); } catch { }\<close>\<close>
  "storage_set ls s key v =
     (case setItem ls s key v of Inr s' \<Rightarrow> Inr s' | Inl e \<Rightarrow> Inr s)"

text \<open>
  A store as browsers provide it: access can be denied altogether, and a write that would
  take the stored characters beyond the quota is refused.
\<close>

record browserStore =
  denied :: bool
  quota :: nat
  items :: "(string \<times> string) list"

definition storedSize :: "(string \<times> string) list \<Rightarrow> nat" where
  "storedSize kvs = sum_list (map (\<lambda>(k, v). length k + length v) kvs)"

definition localStorage :: "browserStore storageArea" where
  "localStorage =
     \<lparr>getItem = (\<lambda>s key. if denied s then Inl SecurityError else Inr (map_of (items s) key)),
      setItem = (\<lambda>s key v.
         if denied s then Inl SecurityError
         else if quota s < storedSize (AList.update key v (items s)) then Inl QuotaExceededError
         else Inr (s\<lparr>items := AList.update key v (items s)\<rparr>))\<rparr>"

section \<open>Delivering a batch of entries\<close>

fun runCallback :: "callback \<Rightarrow> entry list \<Rightarrow> dom \<Rightarrow> dom" where
  "runCallback (TocCallback tocLinks) entries d = tocCallback tocLinks entries d"
| "runCallback RevealCallback entries d = revealCallback entries d"

definition deliver :: "nat \<Rightarrow> entry list \<Rightarrow> page \<Rightarrow> page" where
  \<comment> \<open>the host calls the callback of observer \<open>i\<close> with one batch\<close>
  "deliver i entries p =
     (if i < length (observers p)
      then p\<lparr>nodes := runCallback (callback (observers p ! i)) entries (nodes p)\<rparr>
      else p)"

section \<open>Auxiliary definitions for the proofs\<close>

definition tocLinksPass :: "node \<Rightarrow> node list \<Rightarrow> dom \<Rightarrow> dom" where
  \<comment> \<open>the inner loop of the TOC callback, for the entry whose target is \<open>t\<close>\<close>
  "tocLinksPass t links d =
     forEach (\<lambda>link d'. d'(link := highlightLink (d' t) (d' link))) links d"

definition showAll :: "node list \<Rightarrow> dom \<Rightarrow> dom" where
  \<comment> \<open>the reduced-motion loop of \<open>initRevealAnimations\<close>, on the store alone\<close>
  "showAll els d = forEach (\<lambda>el d'. d'(el := classList_add ''visible'' (d' el))) els d"

section \<open>Sample documents\<close>

definition blank :: element where
  "blank = \<lparr>attributes = [], classList = []\<rparr>"

definition linkTo :: "string \<Rightarrow> element" where
  "linkTo h = \<lparr>attributes = [(''href'', h)], classList = [''toc-link'']\<rparr>"

definition activeLinkTo :: "string \<Rightarrow> element" where
  "activeLinkTo h =
     \<lparr>attributes = [(''href'', h), (''aria-current'', ''true'')],
      classList = [''toc-link'', ''active'']\<rparr>"

definition headingWith :: "string \<Rightarrow> element" where
  "headingWith i = \<lparr>attributes = [(''id'', i)], classList = []\<rparr>"

definition block :: "string list \<Rightarrow> element" where
  "block cs = \<lparr>attributes = [], classList = cs\<rparr>"

definition docABC :: dom where
  \<comment> \<open>links 1, 2, 3 to \<open>#a\<close>, \<open>#b\<close>, \<open>#c\<close> (the first one active), headings 4 to 7,
      content blocks 8, 9, 10 (the last one already revealed)\<close>
  "docABC = (\<lambda>_. blank)
     (1 := activeLinkTo ''#a'', 2 := linkTo ''#b'', 3 := linkTo ''#c'',
      4 := headingWith ''a'', 5 := headingWith ''b'', 6 := headingWith ''c'',
      7 := headingWith ''appendix'',
      8 := block [''reveal''], 9 := block [''stagger''], 10 := block [''reveal'', ''visible''])"

definition docDup :: dom where
  \<comment> \<open>two links to the same fragment\<close>
  "docDup = (\<lambda>_. blank)(1 := linkTo ''#a'', 2 := linkTo ''#a'', 3 := headingWith ''a'')"

definition docTwoActive :: dom where
  \<comment> \<open>a document whose markup already marks two links active\<close>
  "docTwoActive =
     (\<lambda>_. blank)(1 := activeLinkTo ''#a'', 2 := activeLinkTo ''#b'', 3 := headingWith ''a'')"

definition docRel :: dom where
  \<comment> \<open>a link that names the page before the fragment\<close>
  "docRel = (\<lambda>_. blank)(1 := linkTo ''page.html#b'', 2 := headingWith ''b'')"

definition seen :: "node \<Rightarrow> entry" where
  "seen h = \<lparr>target = h, isIntersecting = True\<rparr>"

definition unseen :: "node \<Rightarrow> entry" where
  "unseen h = \<lparr>target = h, isIntersecting = False\<rparr>"

definition pageABC :: page where
  "pageABC =
     \<lparr>nodes = docABC,
      getElementById = (\<lambda>i. if i = ''toc'' then Some 0 else None),
      querySelectorAll = (\<lambda>sel. if sel = ''h2[id], h3[id]'' then [4, 5, 6, 7]
                                 else if sel = ''.reveal, .stagger'' then [8, 9, 10] else []),
      querySelectorAllIn = (\<lambda>n sel. if n = 0 \<and> sel = ''a'' then [1, 2, 3] else []),
      matchMedia = (\<lambda>q. False),
      intersectionObserverDefined = True,
      observers = []\<rparr>"

definition pageReduced :: page where
  \<comment> \<open>reduced motion preferred, on a host without \<open>IntersectionObserver\<close>\<close>
  "pageReduced =
     pageABC\<lparr>matchMedia := (\<lambda>q. q = ''(prefers-reduced-motion: reduce)''),
             intersectionObserverDefined := False\<rparr>"

definition pageNoToc :: page where
  "pageNoToc = pageABC\<lparr>getElementById := (\<lambda>i. None), intersectionObserverDefined := False\<rparr>"

definition pageNoHeadings :: page where
  "pageNoHeadings = pageABC\<lparr>querySelectorAll := (\<lambda>sel. []), intersectionObserverDefined := False\<rparr>"

definition deniedStore :: browserStore where
  "deniedStore = \<lparr>denied = True, quota = 100, items = []\<rparr>"

definition fullStore :: browserStore where
  "fullStore = \<lparr>denied = False, quota = 9, items = [(''theme'', ''dark'')]\<rparr>"

section \<open>Basic facts about element operations\<close>

lemma getAttribute_setAttribute:
  "getAttribute (setAttribute k v el) n = (if n = k then Some v else getAttribute el n)"
  by (simp add: getAttribute_def setAttribute_def update_conv')

lemma getAttribute_removeAttribute:
  "getAttribute (removeAttribute k el) n = (if n = k then None else getAttribute el n)"
  by (simp add: getAttribute_def removeAttribute_def delete_conv')

lemma getAttribute_classList_toggle:
  "getAttribute (classList_toggle tok b el) n = getAttribute el n"
  by (simp add: getAttribute_def classList_toggle_def classList_add_def classList_remove_def)

lemma classList_setAttribute: "classList (setAttribute k v el) = classList el"
  by (simp add: setAttribute_def)

lemma classList_removeAttribute: "classList (removeAttribute k el) = classList el"
  by (simp add: removeAttribute_def)

lemma isVisible_add: "isVisible (classList_add ''visible'' el)"
  by (simp add: isVisible_def classList_contains_def classList_add_def)

lemma forEach_append: "forEach f (xs @ ys) s = forEach f ys (forEach f xs s)"
  by (induction xs arbitrary: s) simp_all

lemma forEach_concat: "forEach (\<lambda>xs. forEach f xs) xss s = forEach f (concat xss) s"
  by (induction xss arbitrary: s) (simp_all add: forEach_append)

lemmas sample_defs = docABC_def docDup_def docTwoActive_def docRel_def blank_def linkTo_def activeLinkTo_def
  headingWith_def block_def seen_def unseen_def

lemmas read_defs = href_def fragmentOf_def elementId_def getAttribute_def isActive_def
  isVisible_def ariaCurrent_def classList_contains_def activeCount_def

lemmas toc_defs = tocCallback_def tocEntry_def highlightLink_def classList_toggle_def
  classList_add_def classList_remove_def setAttribute_def removeAttribute_def

section \<open>One pass over the TOC links\<close>

lemma highlightLink_attr:
  "getAttribute (highlightLink tgt link) n =
     (if n = ''aria-current''
      then (if href link = Some (fragmentOf tgt) then Some ''true'' else None)
      else getAttribute link n)"
  by (simp add: highlightLink_def Let_def href_def fragmentOf_def getAttribute_setAttribute
      getAttribute_removeAttribute getAttribute_classList_toggle)

lemma highlightLink_active:
  "isActive (highlightLink tgt link) = (href link = Some (fragmentOf tgt))"
  by (simp add: highlightLink_def Let_def href_def fragmentOf_def isActive_def
      classList_contains_def classList_setAttribute classList_removeAttribute
      classList_toggle_def classList_add_def classList_remove_def)

lemma highlightLink_aria:
  "ariaCurrent (highlightLink tgt link) =
     (if href link = Some (fragmentOf tgt) then Some ''true'' else None)"
  by (simp add: ariaCurrent_def highlightLink_attr)

lemma highlightLink_href: "href (highlightLink tgt link) = href link"
  by (simp add: href_def highlightLink_attr)

lemma highlightLink_fragment: "fragmentOf (highlightLink tgt link) = fragmentOf link"
  by (simp add: fragmentOf_def elementId_def highlightLink_attr)

lemma tocLinksPass_Nil: "tocLinksPass t [] d = d"
  by (simp add: tocLinksPass_def)

lemma tocLinksPass_Cons:
  "tocLinksPass t (l # ls) d = tocLinksPass t ls (d(l := highlightLink (d t) (d l)))"
  by (simp add: tocLinksPass_def)

lemma tocLinksPass_href: "href (tocLinksPass t links d n) = href (d n)"
  by (induction links arbitrary: d)
     (simp_all add: tocLinksPass_Nil tocLinksPass_Cons highlightLink_href)

lemma tocLinksPass_fragment: "fragmentOf (tocLinksPass t links d n) = fragmentOf (d n)"
  by (induction links arbitrary: d)
     (simp_all add: tocLinksPass_Nil tocLinksPass_Cons highlightLink_fragment)

lemma tocLinksPass_other: "n \<notin> set links \<Longrightarrow> tocLinksPass t links d n = d n"
  by (induction links arbitrary: d) (simp_all add: tocLinksPass_Nil tocLinksPass_Cons)

text \<open>
  After a pass every link of the list is marked or cleared according to its own \<open>href\<close>:
  the pass changes neither an \<open>href\<close> nor an \<open>id\<close>, so a link that is listed twice, or a
  target that is itself a link, is treated the same at every visit.
\<close>

lemma tocLinksPass_member:
  "n \<in> set links \<Longrightarrow>
     isActive (tocLinksPass t links d n) = (href (d n) = Some (fragmentOf (d t))) \<and>
     ariaCurrent (tocLinksPass t links d n) =
       (if href (d n) = Some (fragmentOf (d t)) then Some ''true'' else None)"
proof (induction links arbitrary: d)
  case Nil
  then show ?case by simp
next
  case (Cons l ls)
  let ?d1 = "d(l := highlightLink (d t) (d l))"
  have h: "href (?d1 n) = href (d n)"
    by (simp add: highlightLink_href)
  have f: "fragmentOf (?d1 t) = fragmentOf (d t)"
    by (simp add: highlightLink_fragment)
  show ?case
  proof (cases "n \<in> set ls")
    case True
    from Cons.IH [OF True, of ?d1] show ?thesis
      unfolding tocLinksPass_Cons h f .
  next
    case False
    with Cons.prems have nl: "n = l" by simp
    have "tocLinksPass t (l # ls) d n = ?d1 n"
      unfolding tocLinksPass_Cons using False by (rule tocLinksPass_other)
    then show ?thesis
      by (simp add: nl highlightLink_active highlightLink_aria)
  qed
qed

section \<open>Entries and batches of the TOC callback\<close>

lemma tocEntry_intersecting:
  "isIntersecting e \<Longrightarrow> tocEntry links e d = tocLinksPass (target e) links d"
  by (simp add: tocEntry_def tocLinksPass_def)

lemma tocEntry_skip: "\<not> isIntersecting e \<Longrightarrow> tocEntry links e d = d"
  by (simp add: tocEntry_def)

lemma tocCallback_batches:
  "forEach (tocCallback links) batches d = forEach (tocEntry links) (concat batches) d"
proof -
  have "tocCallback links = (\<lambda>xs. forEach (tocEntry links) xs)"
    by (rule ext)+ (simp add: tocCallback_def)
  then show ?thesis by (simp add: forEach_concat)
qed

lemma tocEntry_href: "href (tocEntry links e d n) = href (d n)"
  by (cases "isIntersecting e")
     (simp_all add: tocEntry_intersecting tocEntry_skip tocLinksPass_href)

lemma tocEntry_fragment: "fragmentOf (tocEntry links e d n) = fragmentOf (d n)"
  by (cases "isIntersecting e")
     (simp_all add: tocEntry_intersecting tocEntry_skip tocLinksPass_fragment)

lemma tocEntries_href: "href (forEach (tocEntry links) es d n) = href (d n)"
  by (induction es arbitrary: d) (simp_all add: tocEntry_href)

lemma tocEntries_fragment: "fragmentOf (forEach (tocEntry links) es d n) = fragmentOf (d n)"
  by (induction es arbitrary: d) (simp_all add: tocEntry_fragment)

lemma lastIntersecting_alt:
  "lastIntersecting es =
     (if filter isIntersecting es = [] then None
      else Some (target (last (filter isIntersecting es))))"
  by (simp add: lastIntersecting_def split: list.splits)

lemma lastIntersecting_snoc:
  "lastIntersecting (es @ [e]) =
     (if isIntersecting e then Some (target e) else lastIntersecting es)"
  by (simp add: lastIntersecting_alt)

lemma tocEntries_none:
  "lastIntersecting es = None \<Longrightarrow> forEach (tocEntry links) es d = d"
proof (induction es arbitrary: d)
  case Nil
  then show ?case by simp
next
  case (Cons e es)
  from Cons.prems have a: "\<not> isIntersecting e" and b: "lastIntersecting es = None"
    by (auto simp: lastIntersecting_def split: list.splits if_splits)
  show ?case using Cons.IH [OF b] by (simp add: tocEntry_skip a)
qed

lemma tocEntries_last:
  "lastIntersecting es = Some h \<Longrightarrow> n \<in> set links \<Longrightarrow>
     isActive (forEach (tocEntry links) es d n) = (href (d n) = Some (fragmentOf (d h))) \<and>
     ariaCurrent (forEach (tocEntry links) es d n) =
       (if href (d n) = Some (fragmentOf (d h)) then Some ''true'' else None)"
proof (induction es rule: rev_induct)
  case Nil
  then show ?case by (simp add: lastIntersecting_alt)
next
  case (snoc e es)
  let ?d1 = "forEach (tocEntry links) es d"
  have step: "forEach (tocEntry links) (es @ [e]) d = tocEntry links e ?d1"
    by (simp add: forEach_append)
  show ?case
  proof (cases "isIntersecting e")
    case True
    with snoc.prems(1) have h: "h = target e"
      by (simp add: lastIntersecting_snoc)
    show ?thesis
      unfolding step tocEntry_intersecting [OF True]
      using tocLinksPass_member [OF snoc.prems(2), of "target e" ?d1]
      by (simp add: h tocEntries_href tocEntries_fragment)
  next
    case False
    with snoc.prems(1) have "lastIntersecting es = Some h"
      by (simp add: lastIntersecting_snoc)
    from snoc.IH [OF this snoc.prems(2)] show ?thesis
      unfolding step tocEntry_skip [OF False] .
  qed
qed

lemma activeCount_after:
  assumes "lastIntersecting es = Some h"
  shows "activeCount links (forEach (tocEntry links) es d) = linksTo links d h"
proof -
  have "filter (\<lambda>l. isActive (forEach (tocEntry links) es d l)) links =
        filter (\<lambda>l. href (d l) = Some (fragmentOf (d h))) links"
    by (rule filter_cong) (simp_all add: tocEntries_last [OF assms])
  then show ?thesis by (simp add: activeCount_def linksTo_def)
qed

lemma hrefFragment_bare: "href el = Some (CHR ''#'' # s) \<Longrightarrow> hrefFragment el = Some s"
  by (simp add: hrefFragment_def)

lemma toc_in_then_out:
  assumes "isIntersecting e1" and "\<not> isIntersecting e2"
  shows "tocCallback links [e1, e2] d = tocLinksPass (target e1) links d"
  using assms by (simp add: tocCallback_def tocEntry_skip tocEntry_intersecting)

section \<open>What a delivered batch does to the page\<close>

lemma deliver_toc:
  "i < length (observers p) \<Longrightarrow> callback (observers p ! i) = TocCallback links \<Longrightarrow>
     nodes (deliver i es p) = tocCallback links es (nodes p)"
  by (simp add: deliver_def)

lemma deliver_reveal:
  "i < length (observers p) \<Longrightarrow> callback (observers p ! i) = RevealCallback \<Longrightarrow>
     nodes (deliver i es p) = revealCallback es (nodes p)"
  by (simp add: deliver_def)

lemma deliver_observers: "observers (deliver i es p) = observers p"
  by (simp add: deliver_def)

section \<open>Claims about the TOC highlighter\<close>

text \<open>
  Claim C10. An entry with \<open>isIntersecting = false\<close> changes nothing: processing it leaves
  the whole store as it was, so the active marker and the \<open>aria-current\<close> attribute of
  every TOC link are exactly what they were before the entry.
\<close>

theorem C10_non_intersecting_entry_changes_nothing:
  "\<not> isIntersecting e \<Longrightarrow>
     tocEntry tocLinks e d = d \<and>
     (\<forall>l. isActive (tocEntry tocLinks e d l) = isActive (d l) \<and>
          ariaCurrent (tocEntry tocLinks e d l) = ariaCurrent (d l))"
  by (simp add: tocEntry_skip)

theorem C10_witness:
  "\<not> isIntersecting (unseen 5) \<and> isActive (docABC 1) \<and>
   tocEntry [1, 2, 3] (unseen 5) docABC = docABC \<and>
   (\<forall>l. isActive (tocEntry [1, 2, 3] (unseen 5) docABC l) = isActive (docABC l) \<and>
        ariaCurrent (tocEntry [1, 2, 3] (unseen 5) docABC l) = ariaCurrent (docABC l))"
proof -
  have a: "\<not> isIntersecting (unseen 5)" by (simp add: unseen_def)
  have b: "isActive (docABC 1)" by (simp add: sample_defs read_defs)
  from C10_non_intersecting_entry_changes_nothing [OF a, of "[1, 2, 3]" docABC] a b
  show ?thesis by blast
qed

text \<open>
  Claim C9. When an intersecting heading is processed whose id matches the \<open>href\<close> of no
  TOC link, every TOC link ends up inactive and without \<open>aria-current\<close>: the state with
  no active link is reachable.
\<close>

theorem C9_unmatched_heading_clears_all_links:
  assumes "isIntersecting e"
    and "\<forall>l\<in>set tocLinks. href (d l) \<noteq> Some (fragmentOf (d (target e)))"
  shows "(\<forall>l\<in>set tocLinks. \<not> isActive (tocEntry tocLinks e d l) \<and>
            ariaCurrent (tocEntry tocLinks e d l) = None) \<and>
         activeCount tocLinks (tocEntry tocLinks e d) = 0"
proof -
  have m: "\<forall>l\<in>set tocLinks. \<not> isActive (tocEntry tocLinks e d l) \<and>
            ariaCurrent (tocEntry tocLinks e d l) = None"
  proof
    fix l assume l: "l \<in> set tocLinks"
    with assms(2) have "href (d l) \<noteq> Some (fragmentOf (d (target e)))" by blast
    with tocLinksPass_member [OF l, of "target e" d]
    show "\<not> isActive (tocEntry tocLinks e d l) \<and> ariaCurrent (tocEntry tocLinks e d l) = None"
      by (simp add: tocEntry_intersecting [OF assms(1)])
  qed
  then have "filter (\<lambda>l. isActive (tocEntry tocLinks e d l)) tocLinks = []"
    by (simp add: filter_empty_conv)
  with m show ?thesis by (simp add: activeCount_def)
qed

theorem C9_witness:
  "isIntersecting (seen 7) \<and>
   href (docABC 1) \<noteq> Some (fragmentOf (docABC (target (seen 7)))) \<and>
   href (docABC 2) \<noteq> Some (fragmentOf (docABC (target (seen 7)))) \<and>
   href (docABC 3) \<noteq> Some (fragmentOf (docABC (target (seen 7)))) \<and>
   isActive (docABC 1) \<and>
   \<not> isActive (tocEntry [1, 2, 3] (seen 7) docABC 1) \<and>
   ariaCurrent (tocEntry [1, 2, 3] (seen 7) docABC 1) = None \<and>
   \<not> isActive (tocEntry [1, 2, 3] (seen 7) docABC 2) \<and>
   ariaCurrent (tocEntry [1, 2, 3] (seen 7) docABC 2) = None \<and>
   \<not> isActive (tocEntry [1, 2, 3] (seen 7) docABC 3) \<and>
   ariaCurrent (tocEntry [1, 2, 3] (seen 7) docABC 3) = None \<and>
   activeCount [1, 2, 3] (tocEntry [1, 2, 3] (seen 7) docABC) = 0"
proof -
  have a: "isIntersecting (seen 7)" by (simp add: seen_def)
  have b: "href (docABC 1) \<noteq> Some (fragmentOf (docABC (target (seen 7))))"
    "href (docABC 2) \<noteq> Some (fragmentOf (docABC (target (seen 7))))"
    "href (docABC 3) \<noteq> Some (fragmentOf (docABC (target (seen 7))))"
    by (simp_all add: sample_defs read_defs)
  then have b': "\<forall>l\<in>set [1, 2, 3]. href (docABC l) \<noteq> Some (fragmentOf (docABC (target (seen 7))))"
    by simp
  have c: "isActive (docABC 1)" by (simp add: sample_defs read_defs)
  have m: "(1::nat) \<in> set [1, 2, 3]" "(2::nat) \<in> set [1, 2, 3]" "(3::nat) \<in> set [1, 2, 3]"
    by simp_all
  note all = C9_unmatched_heading_clears_all_links [OF a b']
  from bspec [OF conjunct1 [OF all] m(1)] bspec [OF conjunct1 [OF all] m(2)]
    bspec [OF conjunct1 [OF all] m(3)] conjunct2 [OF all]
  have "\<not> isActive (tocEntry [1, 2, 3] (seen 7) docABC 1) \<and>
      ariaCurrent (tocEntry [1, 2, 3] (seen 7) docABC 1) = None \<and>
      \<not> isActive (tocEntry [1, 2, 3] (seen 7) docABC 2) \<and>
      ariaCurrent (tocEntry [1, 2, 3] (seen 7) docABC 2) = None \<and>
      \<not> isActive (tocEntry [1, 2, 3] (seen 7) docABC 3) \<and>
      ariaCurrent (tocEntry [1, 2, 3] (seen 7) docABC 3) = None \<and>
      activeCount [1, 2, 3] (tocEntry [1, 2, 3] (seen 7) docABC) = 0"
    by blast
  with a b c show ?thesis by blast
qed

text \<open>
  Claim C3. With a TOC of three links whose \<open>href\<close>s are \<open>#a\<close>, \<open>#b\<close>, \<open>#c\<close>, one batch
  holding the single intersecting entry of the heading with id \<open>b\<close> leaves the link to
  \<open>#b\<close> active with \<open>aria-current\<close> set, and the links to \<open>#a\<close> and \<open>#c\<close> inactive with
  \<open>aria-current\<close> absent, whatever the links carried before.
\<close>

theorem C3_heading_b_activates_only_link_b:
  assumes "href (d la) = Some ''#a''" and "href (d lb) = Some ''#b''"
    and "href (d lc) = Some ''#c''" and "elementId (d h) = ''b''"
  shows "isActive (tocCallback [la, lb, lc] [\<lparr>target = h, isIntersecting = True\<rparr>] d lb) \<and>
         ariaCurrent (tocCallback [la, lb, lc] [\<lparr>target = h, isIntersecting = True\<rparr>] d lb)
           = Some ''true'' \<and>
         \<not> isActive (tocCallback [la, lb, lc] [\<lparr>target = h, isIntersecting = True\<rparr>] d la) \<and>
         ariaCurrent (tocCallback [la, lb, lc] [\<lparr>target = h, isIntersecting = True\<rparr>] d la)
           = None \<and>
         \<not> isActive (tocCallback [la, lb, lc] [\<lparr>target = h, isIntersecting = True\<rparr>] d lc) \<and>
         ariaCurrent (tocCallback [la, lb, lc] [\<lparr>target = h, isIntersecting = True\<rparr>] d lc)
           = None"
proof -
  let ?e = "\<lparr>target = h, isIntersecting = True\<rparr>"
  have run: "tocCallback [la, lb, lc] [?e] d = tocLinksPass h [la, lb, lc] d"
    by (simp add: tocCallback_def tocEntry_intersecting)
  have f: "fragmentOf (d h) = ''#b''"
    by (simp add: fragmentOf_def assms(4))
  have a: "la \<in> set [la, lb, lc]" and b: "lb \<in> set [la, lb, lc]" and c: "lc \<in> set [la, lb, lc]"
    by simp_all
  show ?thesis
    unfolding run
    using tocLinksPass_member [OF a, of h d] tocLinksPass_member [OF b, of h d]
      tocLinksPass_member [OF c, of h d]
    by (simp add: f assms(1-3))
qed

theorem C3_witness:
  "href (docABC 1) = Some ''#a'' \<and> href (docABC 2) = Some ''#b'' \<and>
   href (docABC 3) = Some ''#c'' \<and> elementId (docABC 5) = ''b'' \<and>
   isActive (docABC 1) \<and> \<not> isActive (docABC 2) \<and>
   isActive (tocCallback [1, 2, 3] [\<lparr>target = 5, isIntersecting = True\<rparr>] docABC 2) \<and>
   ariaCurrent (tocCallback [1, 2, 3] [\<lparr>target = 5, isIntersecting = True\<rparr>] docABC 2)
     = Some ''true'' \<and>
   \<not> isActive (tocCallback [1, 2, 3] [\<lparr>target = 5, isIntersecting = True\<rparr>] docABC 1) \<and>
   ariaCurrent (tocCallback [1, 2, 3] [\<lparr>target = 5, isIntersecting = True\<rparr>] docABC 1)
     = None \<and>
   \<not> isActive (tocCallback [1, 2, 3] [\<lparr>target = 5, isIntersecting = True\<rparr>] docABC 3) \<and>
   ariaCurrent (tocCallback [1, 2, 3] [\<lparr>target = 5, isIntersecting = True\<rparr>] docABC 3)
     = None"
proof -
  have h: "href (docABC 1) = Some ''#a''" "href (docABC 2) = Some ''#b''"
    "href (docABC 3) = Some ''#c''" "elementId (docABC 5) = ''b''"
    by (simp_all add: sample_defs read_defs)
  have i: "isActive (docABC 1)" "\<not> isActive (docABC 2)"
    by (simp_all add: sample_defs read_defs)
  from C3_heading_b_activates_only_link_b [OF h] h i show ?thesis by blast
qed

text \<open>
  Claim C1, as the code has it. For every sequence of batches delivered to the TOC
  callback: until the sequence holds an intersecting entry the store is unchanged, so the
  links keep the markers the document gave them. Once it holds one, a TOC link carries
  the active marker, and \<open>aria-current = "true"\<close>, exactly when its whole \<open>href\<close>
  attribute is \<open>#\<close> followed by the id of the most recently processed intersecting
  heading, and every other TOC link has neither; an active link's \<open>href\<close> fragment is
  then that id. The number of active links is the number of TOC links with that \<open>href\<close>:
  at most one link is active exactly when at most one TOC link has it.
\<close>

theorem C1_active_link_follows_last_intersecting_heading:
  "(lastIntersecting (concat batches) = Some h \<longrightarrow>
      (\<forall>l\<in>set tocLinks.
         (isActive (forEach (tocCallback tocLinks) batches d l) \<longleftrightarrow>
            href (d l) = Some (fragmentOf (d h))) \<and>
         ariaCurrent (forEach (tocCallback tocLinks) batches d l) =
            (if href (d l) = Some (fragmentOf (d h)) then Some ''true'' else None) \<and>
         (isActive (forEach (tocCallback tocLinks) batches d l) \<longrightarrow>
            hrefFragment (d l) = Some (elementId (d h)))) \<and>
      activeCount tocLinks (forEach (tocCallback tocLinks) batches d) = linksTo tocLinks d h \<and>
      (activeCount tocLinks (forEach (tocCallback tocLinks) batches d) \<le> 1 \<longleftrightarrow>
         linksTo tocLinks d h \<le> 1)) \<and>
   (lastIntersecting (concat batches) = None \<longrightarrow>
      forEach (tocCallback tocLinks) batches d = d \<and>
      activeCount tocLinks (forEach (tocCallback tocLinks) batches d) = activeCount tocLinks d)"
proof (intro conjI impI ballI)
  fix l
  assume h: "lastIntersecting (concat batches) = Some h" and l: "l \<in> set tocLinks"
  note m = tocEntries_last [OF h l, of d, folded tocCallback_batches]
  from m show a: "isActive (forEach (tocCallback tocLinks) batches d l) \<longleftrightarrow>
            href (d l) = Some (fragmentOf (d h))" by simp
  from m show "ariaCurrent (forEach (tocCallback tocLinks) batches d l) =
            (if href (d l) = Some (fragmentOf (d h)) then Some ''true'' else None)" by simp
  assume "isActive (forEach (tocCallback tocLinks) batches d l)"
  with a have "href (d l) = Some (CHR ''#'' # elementId (d h))"
    by (simp add: fragmentOf_def)
  then show "hrefFragment (d l) = Some (elementId (d h))"
    by (rule hrefFragment_bare)
next
  assume h: "lastIntersecting (concat batches) = Some h"
  show c: "activeCount tocLinks (forEach (tocCallback tocLinks) batches d) = linksTo tocLinks d h"
    unfolding tocCallback_batches by (rule activeCount_after [OF h])
  show "activeCount tocLinks (forEach (tocCallback tocLinks) batches d) \<le> 1 \<longleftrightarrow>
         linksTo tocLinks d h \<le> 1"
    by (simp add: c)
next
  assume n: "lastIntersecting (concat batches) = None"
  show s: "forEach (tocCallback tocLinks) batches d = d"
    unfolding tocCallback_batches using n by (rule tocEntries_none)
  show "activeCount tocLinks (forEach (tocCallback tocLinks) batches d) = activeCount tocLinks d"
    by (simp add: s)
qed

theorem C1_witness:
  "lastIntersecting (concat [[seen 4, seen 5], [unseen 5, seen 6, unseen 6]]) = Some 6 \<and>
   isActive (docABC 1) \<and>
   \<not> isActive (forEach (tocCallback [1, 2, 3])
                  [[seen 4, seen 5], [unseen 5, seen 6, unseen 6]] docABC 1) \<and>
   ariaCurrent (forEach (tocCallback [1, 2, 3])
                  [[seen 4, seen 5], [unseen 5, seen 6, unseen 6]] docABC 1) = None \<and>
   \<not> isActive (forEach (tocCallback [1, 2, 3])
                  [[seen 4, seen 5], [unseen 5, seen 6, unseen 6]] docABC 2) \<and>
   ariaCurrent (forEach (tocCallback [1, 2, 3])
                  [[seen 4, seen 5], [unseen 5, seen 6, unseen 6]] docABC 2) = None \<and>
   isActive (forEach (tocCallback [1, 2, 3])
               [[seen 4, seen 5], [unseen 5, seen 6, unseen 6]] docABC 3) \<and>
   ariaCurrent (forEach (tocCallback [1, 2, 3])
                  [[seen 4, seen 5], [unseen 5, seen 6, unseen 6]] docABC 3) = Some ''true'' \<and>
   hrefFragment (docABC 3) = Some (elementId (docABC 6)) \<and>
   linksTo [1, 2, 3] docABC 6 = 1 \<and>
   activeCount [1, 2, 3]
     (forEach (tocCallback [1, 2, 3]) [[seen 4, seen 5], [unseen 5, seen 6, unseen 6]] docABC)
     = 1 \<and>
   lastIntersecting (concat [[unseen 4], [unseen 5, unseen 6]]) = None \<and>
   forEach (tocCallback [1, 2, 3]) [[unseen 4], [unseen 5, unseen 6]] docABC = docABC \<and>
   activeCount [1, 2, 3] (forEach (tocCallback [1, 2, 3]) [[unseen 4], [unseen 5, unseen 6]] docABC)
     = activeCount [1, 2, 3] docABC"
proof -
  let ?after = "forEach (tocCallback [1, 2, 3]) [[seen 4, seen 5], [unseen 5, seen 6, unseen 6]] docABC"
  have a: "lastIntersecting (concat [[seen 4, seen 5], [unseen 5, seen 6, unseen 6]]) = Some 6"
    by (simp add: lastIntersecting_def seen_def unseen_def)
  have n: "lastIntersecting (concat [[unseen 4], [unseen 5, unseen 6]]) = None"
    by (simp add: lastIntersecting_def unseen_def)
  have c: "isActive (docABC 1)" "linksTo [1, 2, 3] docABC 6 = 1"
    by (simp_all add: sample_defs read_defs linksTo_def)
  have hr: "href (docABC 1) = Some ''#a''" "href (docABC 2) = Some ''#b''"
    "href (docABC 3) = Some ''#c''" "fragmentOf (docABC 6) = ''#c''"
    by (simp_all add: sample_defs read_defs)
  from C1_active_link_follows_last_intersecting_heading
         [of "[[seen 4, seen 5], [unseen 5, seen 6, unseen 6]]" 6 "[1, 2, 3]" docABC] a
  have links: "\<forall>l\<in>set [1, 2, 3].
         (isActive (?after l) \<longleftrightarrow> href (docABC l) = Some (fragmentOf (docABC 6))) \<and>
         ariaCurrent (?after l) =
            (if href (docABC l) = Some (fragmentOf (docABC 6)) then Some ''true'' else None) \<and>
         (isActive (?after l) \<longrightarrow> hrefFragment (docABC l) = Some (elementId (docABC 6)))"
    and count: "activeCount [1, 2, 3] ?after = linksTo [1, 2, 3] docABC 6"
    by blast+
  have m: "(1::nat) \<in> set [1, 2, 3]" "(2::nat) \<in> set [1, 2, 3]" "(3::nat) \<in> set [1, 2, 3]"
    by simp_all
  from bspec [OF links m(1)] bspec [OF links m(2)] bspec [OF links m(3)]
  have "\<not> isActive (?after 1) \<and> ariaCurrent (?after 1) = None \<and>
      \<not> isActive (?after 2) \<and> ariaCurrent (?after 2) = None \<and>
      isActive (?after 3) \<and> ariaCurrent (?after 3) = Some ''true'' \<and>
      hrefFragment (docABC 3) = Some (elementId (docABC 6))"
    unfolding hr by simp
  moreover from C1_active_link_follows_last_intersecting_heading
         [of "[[unseen 4], [unseen 5, unseen 6]]" 0 "[1, 2, 3]" docABC] n
  have "forEach (tocCallback [1, 2, 3]) [[unseen 4], [unseen 5, unseen 6]] docABC = docABC \<and>
     activeCount [1, 2, 3] (forEach (tocCallback [1, 2, 3]) [[unseen 4], [unseen 5, unseen 6]] docABC)
       = activeCount [1, 2, 3] docABC"
    by blast
  ultimately show ?thesis using a n c count by simp
qed

text \<open>
  Claim C1 as stated fails in three ways. Two TOC links that point to the same fragment
  are both active after the heading with id \<open>a\<close> is reported intersecting. Before the
  first intersecting entry the links still carry what the markup gave them: a batch that
  reports the heading as not intersecting leaves two links active that were active in
  the markup. And a link whose \<open>href\<close> is \<open>page.html#b\<close> has the fragment \<open>b\<close>, the id
  of the heading reported intersecting, yet it is not made active, because the script
  compares the whole attribute with \<open>#b\<close>.
\<close>

theorem C1_counterexample:
  "\<not> activeCount [1, 2] (forEach (tocCallback [1, 2]) [[seen 3]] docDup) \<le> 1 \<and>
   \<not> activeCount [1, 2] (forEach (tocCallback [1, 2]) [[unseen 3]] docTwoActive) \<le> 1 \<and>
   hrefFragment (docRel 1) = Some (elementId (docRel 2)) \<and>
   \<not> isActive (forEach (tocCallback [1]) [[seen 2]] docRel 1)"
  by (simp add: sample_defs read_defs toc_defs hrefFragment_def)

section \<open>Claims about the reveal animator\<close>

lemma isVisible_revealEntry_keeps: "isVisible (d x) \<Longrightarrow> isVisible (revealEntry e d x)"
  by (simp add: revealEntry_def isVisible_add)

lemma isVisible_revealEntry_target:
  "isIntersecting e \<Longrightarrow> isVisible (revealEntry e d (target e))"
  by (simp add: revealEntry_def isVisible_add)

lemma revealEntry_skip: "\<not> isIntersecting e \<Longrightarrow> revealEntry e d = d"
  by (simp add: revealEntry_def)

lemma isVisible_revealCallback_keeps:
  "isVisible (d x) \<Longrightarrow> isVisible (revealCallback es d x)"
  unfolding revealCallback_def
  by (induction es arbitrary: d) (simp_all add: isVisible_revealEntry_keeps)

lemma isVisible_batches_keep:
  "isVisible (d x) \<Longrightarrow> isVisible (forEach revealCallback batches d x)"
  by (induction batches arbitrary: d) (simp_all add: isVisible_revealCallback_keeps)

text \<open>
  Claim C2. An element that is marked visible stays marked through every later sequence
  of batches, whatever their entries say; an entry with \<open>isIntersecting = false\<close> is a
  no-op on the whole store; and for targets \<open>x\<close>, \<open>y\<close> the single batch
  \<open>[(x, true), (y, true), (x, false)]\<close> ends with both \<open>x\<close> and \<open>y\<close> marked visible.
\<close>

theorem C2_reveal_is_one_way:
  "(isVisible (d z) \<longrightarrow> isVisible (forEach revealCallback batches d z)) \<and>
   (\<not> isIntersecting e \<longrightarrow> revealEntry e d = d) \<and>
   isVisible (revealCallback [\<lparr>target = x, isIntersecting = True\<rparr>,
        \<lparr>target = y, isIntersecting = True\<rparr>, \<lparr>target = x, isIntersecting = False\<rparr>] d x) \<and>
   isVisible (revealCallback [\<lparr>target = x, isIntersecting = True\<rparr>,
        \<lparr>target = y, isIntersecting = True\<rparr>, \<lparr>target = x, isIntersecting = False\<rparr>] d y)"
proof (intro conjI impI)
  show "isVisible (d z) \<Longrightarrow> isVisible (forEach revealCallback batches d z)"
    by (rule isVisible_batches_keep)
  show "\<not> isIntersecting e \<Longrightarrow> revealEntry e d = d"
    by (rule revealEntry_skip)
  let ?ex = "\<lparr>target = x, isIntersecting = True\<rparr>"
  let ?ey = "\<lparr>target = y, isIntersecting = True\<rparr>"
  let ?fx = "\<lparr>target = x, isIntersecting = False\<rparr>"
  have run: "revealCallback [?ex, ?ey, ?fx] d = revealEntry ?ey (revealEntry ?ex d)"
    by (simp add: revealCallback_def revealEntry_skip)
  have "isVisible (revealEntry ?ex d x)"
    using isVisible_revealEntry_target [of ?ex d] by simp
  then show "isVisible (revealCallback [?ex, ?ey, ?fx] d x)"
    unfolding run by (rule isVisible_revealEntry_keeps)
  show "isVisible (revealCallback [?ex, ?ey, ?fx] d y)"
    unfolding run using isVisible_revealEntry_target [of ?ey "revealEntry ?ex d"] by simp
qed

theorem C2_witness:
  "isVisible (docABC 10) \<and> \<not> isIntersecting (unseen 10) \<and>
   \<not> isVisible (docABC 8) \<and> \<not> isVisible (docABC 9) \<and>
   isVisible (forEach revealCallback [[unseen 10], [seen 8, unseen 10]] docABC 10) \<and>
   revealEntry (unseen 10) docABC = docABC \<and>
   isVisible (revealCallback [\<lparr>target = 8, isIntersecting = True\<rparr>,
        \<lparr>target = 9, isIntersecting = True\<rparr>, \<lparr>target = 8, isIntersecting = False\<rparr>] docABC 8) \<and>
   isVisible (revealCallback [\<lparr>target = 8, isIntersecting = True\<rparr>,
        \<lparr>target = 9, isIntersecting = True\<rparr>, \<lparr>target = 8, isIntersecting = False\<rparr>] docABC 9)"
proof -
  have a: "isVisible (docABC 10)" "\<not> isIntersecting (unseen 10)"
    "\<not> isVisible (docABC 8)" "\<not> isVisible (docABC 9)"
    by (simp_all add: sample_defs read_defs)
  from C2_reveal_is_one_way
         [of docABC 10 "[[unseen 10], [seen 8, unseen 10]]" "unseen 10" 8 9] a
  show ?thesis by blast
qed

section \<open>Claims about initialization\<close>

lemma observe_length: "length (observers (observe i el p)) = length (observers p)"
  by (simp add: observe_def)

lemma observe_init: "init (observers (observe i el p) ! j) = init (observers p ! j)"
  by (cases "j = i") (simp_all add: observe_def)

lemma observe_callback:
  "callback (observers (observe i el p) ! j) = callback (observers p ! j)"
  by (cases "j = i") (simp_all add: observe_def)

lemma observeAll_length:
  "length (observers (forEach (observe i) els p)) = length (observers p)"
  by (induction els arbitrary: p) (simp_all add: observe_length)

lemma observeAll_init:
  "init (observers (forEach (observe i) els p) ! j) = init (observers p ! j)"
  by (induction els arbitrary: p) (simp_all add: observe_init)

lemma observeAll_callback:
  "callback (observers (forEach (observe i) els p) ! j) = callback (observers p ! j)"
  by (induction els arbitrary: p) (simp_all add: observe_callback)

lemma showAll_page:
  "forEach (\<lambda>el q. q\<lparr>nodes := (nodes q)(el := classList_add ''visible'' (nodes q el))\<rparr>)
     els p = p\<lparr>nodes := showAll els (nodes p)\<rparr>"
  by (induction els arbitrary: p) (simp_all add: showAll_def)

lemma showAll_keeps: "isVisible (d x) \<Longrightarrow> isVisible (showAll els d x)"
  unfolding showAll_def
  by (induction els arbitrary: d) (simp_all add: isVisible_add)

lemma showAll_marks: "x \<in> set els \<Longrightarrow> isVisible (showAll els d x)"
proof (induction els arbitrary: d)
  case Nil
  then show ?case by simp
next
  case (Cons el els)
  show ?case
  proof (cases "x = el")
    case True
    have "isVisible ((d(el := classList_add ''visible'' (d el))) x)"
      by (simp add: True isVisible_add)
    then have "isVisible (showAll els (d(el := classList_add ''visible'' (d el))) x)"
      by (rule showAll_keeps)
    then show ?thesis by (simp add: showAll_def)
  next
    case False
    with Cons.prems have "x \<in> set els" by simp
    from Cons.IH [OF this] show ?thesis by (simp add: showAll_def)
  qed
qed

lemma parseRootMargin_toc:
  "parseRootMargin ''-20% 0% -80% 0%'' =
     Some \<lparr>marginTop = Percent (- 20), marginRight = Percent 0,
           marginBottom = Percent (- 80), marginLeft = Percent 0\<rparr>"
  by code_simp



lemma hostReports_toc:
  "hostReports tocOptions vh t ht \<longleftrightarrow> t \<le> vh / 5 \<and> vh / 5 \<le> t + ht"
proof -
  have r: "0 \<le> intersectionRatio (vh / 5) (vh / 5) t ht"
    by (simp add: intersectionRatio_def visibleHeight_def)
  then show ?thesis
    by (simp add: hostReports_def tocOptions_def parseRootMargin_toc rootTop_def rootBottom_def
        resolveLength_def overlaps_def)
qed





lemmas page_defs = pageABC_def pageReduced_def pageNoToc_def pageNoHeadings_def

text \<open>
  Claim C4. When the reduced-motion preference is set at initialization and there is at
  least one target element, \<open>initRevealAnimations\<close> returns normally with every target
  marked visible and with the list of observers as it was: no observer is constructed and
  nothing is observed, also on a host that has no \<open>IntersectionObserver\<close>.
\<close>

theorem C4_reduced_motion_shows_all_without_observer:
  assumes "matchMedia p ''(prefers-reduced-motion: reduce)''"
    and "querySelectorAll p ''.reveal, .stagger'' \<noteq> []"
  shows "\<exists>p'. initRevealAnimations p = Inr p' \<and>
           (\<forall>el\<in>set (querySelectorAll p ''.reveal, .stagger''). isVisible (nodes p' el)) \<and>
           observers p' = observers p"
  using assms by (simp add: initRevealAnimations_def Let_def showAll_page showAll_marks)

theorem C4_witness:
  "matchMedia pageReduced ''(prefers-reduced-motion: reduce)'' \<and>
   querySelectorAll pageReduced ''.reveal, .stagger'' = [8, 9, 10] \<and>
   \<not> intersectionObserverDefined pageReduced \<and>
   \<not> isVisible (nodes pageReduced 8) \<and>
   (\<exists>p'. initRevealAnimations pageReduced = Inr p' \<and>
      (\<forall>el\<in>set (querySelectorAll pageReduced ''.reveal, .stagger''). isVisible (nodes p' el)) \<and>
      observers p' = observers pageReduced)"
proof -
  have a: "matchMedia pageReduced ''(prefers-reduced-motion: reduce)''"
    by (simp add: page_defs)
  have b: "querySelectorAll pageReduced ''.reveal, .stagger'' = [8, 9, 10]"
    by (simp add: page_defs)
  then have b': "querySelectorAll pageReduced ''.reveal, .stagger'' \<noteq> []"
    by simp
  have c: "\<not> intersectionObserverDefined pageReduced" "\<not> isVisible (nodes pageReduced 8)"
    by (simp_all add: page_defs sample_defs read_defs)
  from C4_reduced_motion_shows_all_without_observer [OF a b'] a b c show ?thesis by blast
qed

text \<open>
  Claim C5. When there is no element with id \<open>toc\<close>, or there is no heading element,
  \<open>initTOC\<close> returns normally and leaves the page exactly as it was: the same elements
  and the same observers, so nothing is registered, nothing is mutated and nothing is
  raised.
\<close>

theorem C5_initTOC_without_toc_or_headings_is_noop:
  "getElementById p ''toc'' = None \<or> querySelectorAll p ''h2[id], h3[id]'' = [] \<Longrightarrow>
     initTOC p = Inr p"
  by (auto simp: initTOC_def Let_def split: option.splits)

theorem C5_witness:
  "getElementById pageNoToc ''toc'' = None \<and>
   querySelectorAll pageNoToc ''h2[id], h3[id]'' = [4, 5, 6, 7] \<and>
   initTOC pageNoToc = Inr pageNoToc \<and>
   getElementById pageNoHeadings ''toc'' = Some 0 \<and>
   querySelectorAll pageNoHeadings ''h2[id], h3[id]'' = [] \<and>
   initTOC pageNoHeadings = Inr pageNoHeadings"
proof -
  have a: "getElementById pageNoToc ''toc'' = None"
    "querySelectorAll pageNoToc ''h2[id], h3[id]'' = [4, 5, 6, 7]"
    by (simp_all add: page_defs)
  have b: "getElementById pageNoHeadings ''toc'' = Some 0"
    "querySelectorAll pageNoHeadings ''h2[id], h3[id]'' = []"
    by (simp_all add: page_defs)
  from C5_initTOC_without_toc_or_headings_is_noop [of pageNoToc]
    C5_initTOC_without_toc_or_headings_is_noop [of pageNoHeadings] a b
  show ?thesis by blast
qed




text \<open>
  Claim C8, as the code has it. When the TOC and at least one heading exist (and the host
  has \<open>IntersectionObserver\<close>), \<open>initTOC\<close> constructs one observer whose root margin is
  \<open>-20% 0% -80% 0%\<close>: \<open>-20%\<close> at the top and \<open>-80%\<close> at the bottom, so the root
  rectangle leaves out the top 20% and the bottom 80% of the viewport, and a heading is
  reported intersecting exactly while it crosses the band that remains, the line at 20%
  of the viewport's height. A heading reported outside the band changes no link. A
  heading reported inside the band makes active the links whose \<open>href\<close> is \<open>#\<close> followed
  by its id, and they stay active when the heading is next reported outside the band.
\<close>

theorem C8_toc_observer_root_margin:
  assumes "getElementById p ''toc'' = Some toc"
    and "querySelectorAll p ''h2[id], h3[id]'' \<noteq> []"
    and "intersectionObserverDefined p"
  shows "\<exists>p' m. initTOC p = Inr p' \<and>
           length (observers p') = Suc (length (observers p)) \<and>
           callback (observers p' ! length (observers p)) =
             TocCallback (querySelectorAllIn p toc ''a'') \<and>
           init (observers p' ! length (observers p)) =
             \<lparr>rootMargin = Some ''-20% 0% -80% 0%'', threshold = None\<rparr> \<and>
           init (observers p' ! length (observers p)) = tocOptions \<and>
           parseRootMargin ''-20% 0% -80% 0%'' = Some m \<and>
           m = \<lparr>marginTop = Percent (- 20), marginRight = Percent 0,
                 marginBottom = Percent (- 80), marginLeft = Percent 0\<rparr> \<and>
           rootTop vh m = 20 * vh / 100 \<and> rootBottom vh m = vh - 80 * vh / 100 \<and>
           (hostReports (init (observers p' ! length (observers p))) vh t ht \<longleftrightarrow>
              t \<le> 20 * vh / 100 \<and> 20 * vh / 100 \<le> t + ht) \<and>
           (\<not> hostReports (init (observers p' ! length (observers p))) vh t' ht' \<longrightarrow>
              tocCallback (querySelectorAllIn p toc ''a'')
                [hostEntry (init (observers p' ! length (observers p))) vh h t' ht'] d = d) \<and>
           (hostReports (init (observers p' ! length (observers p))) vh t ht \<and>
            \<not> hostReports (init (observers p' ! length (observers p))) vh t' ht' \<longrightarrow>
              (\<forall>l\<in>set (querySelectorAllIn p toc ''a'').
                 (isActive (tocCallback (querySelectorAllIn p toc ''a'')
                    [hostEntry (init (observers p' ! length (observers p))) vh h t ht,
                     hostEntry (init (observers p' ! length (observers p))) vh h t' ht'] d l)
                  \<longleftrightarrow> href (d l) = Some (fragmentOf (d h)))))"
proof -
  let ?links = "querySelectorAllIn p toc ''a''"
  have opts: "\<lparr>rootMargin = Some ''-20% 0% -80% 0%'', threshold = None\<rparr> = tocOptions"
    by (simp add: tocOptions_def)
  have band: "hostReports tocOptions vh t ht \<longleftrightarrow> t \<le> 20 * vh / 100 \<and> 20 * vh / 100 \<le> t + ht"
    by (simp add: hostReports_toc)
  have out: "\<not> hostReports tocOptions vh t' ht' \<longrightarrow>
      tocCallback ?links [hostEntry tocOptions vh h t' ht'] d = d"
    by (simp add: tocCallback_def tocEntry_skip hostEntry_def)
  have stay: "hostReports tocOptions vh t ht \<and> \<not> hostReports tocOptions vh t' ht' \<longrightarrow>
      (\<forall>l\<in>set ?links.
         (isActive (tocCallback ?links
            [hostEntry tocOptions vh h t ht, hostEntry tocOptions vh h t' ht'] d l)
          \<longleftrightarrow> href (d l) = Some (fragmentOf (d h))))"
  proof (intro impI ballI)
    fix l
    assume r: "hostReports tocOptions vh t ht \<and> \<not> hostReports tocOptions vh t' ht'"
      and l: "l \<in> set ?links"
    from r have "tocCallback ?links
        [hostEntry tocOptions vh h t ht, hostEntry tocOptions vh h t' ht'] d
        = tocLinksPass h ?links d"
      using toc_in_then_out [of "hostEntry tocOptions vh h t ht"
          "hostEntry tocOptions vh h t' ht'" ?links d]
      by (simp add: hostEntry_def)
    with tocLinksPass_member [OF l, of h d]
    show "isActive (tocCallback ?links
            [hostEntry tocOptions vh h t ht, hostEntry tocOptions vh h t' ht'] d l)
          \<longleftrightarrow> href (d l) = Some (fragmentOf (d h))"
      by simp
  qed
  have cfg: "\<exists>p'. initTOC p = Inr p' \<and>
           length (observers p') = Suc (length (observers p)) \<and>
           callback (observers p' ! length (observers p)) = TocCallback ?links \<and>
           init (observers p' ! length (observers p)) = tocOptions"
    using assms
    by (simp add: initTOC_def Let_def newIntersectionObserver_def observeAll_length
      observeAll_init observeAll_callback opts)
  then obtain p' where p': "initTOC p = Inr p'"
      "length (observers p') = Suc (length (observers p))"
      "callback (observers p' ! length (observers p)) = TocCallback ?links"
      "init (observers p' ! length (observers p)) = tocOptions"
    by blast
  let ?m = "\<lparr>marginTop = Percent (- 20), marginRight = Percent 0,
                 marginBottom = Percent (- 80), marginLeft = Percent 0\<rparr>"
  have edges: "rootTop vh ?m = 20 * vh / 100" "rootBottom vh ?m = vh - 80 * vh / 100"
    by (simp_all add: rootTop_def rootBottom_def resolveLength_def)
  show ?thesis
    apply (rule exI [of _ p'])
    apply (rule exI [of _ ?m])
    unfolding p'
    using band out stay edges parseRootMargin_toc opts
    by simp
qed

theorem C8_witness:
  "getElementById pageABC ''toc'' = Some 0 \<and>
   querySelectorAll pageABC ''h2[id], h3[id]'' \<noteq> [] \<and>
   intersectionObserverDefined pageABC \<and>
   querySelectorAllIn pageABC 0 ''a'' = [1, 2, 3] \<and>
   hostReports tocOptions 800 150 40 \<and>
   \<not> hostReports tocOptions 800 300 40 \<and>
   href (docABC 2) = Some (fragmentOf (docABC 5)) \<and>
   (\<exists>p'. initTOC pageABC = Inr p' \<and>
      length (observers p') = Suc (length (observers pageABC)) \<and>
      callback (observers p' ! length (observers pageABC)) = TocCallback [1, 2, 3] \<and>
      init (observers p' ! length (observers pageABC)) = tocOptions \<and>
      tocCallback [1, 2, 3]
        [hostEntry (init (observers p' ! length (observers pageABC))) 800 5 300 40] docABC
        = docABC \<and>
      isActive (tocCallback [1, 2, 3]
        [hostEntry (init (observers p' ! length (observers pageABC))) 800 5 150 40,
         hostEntry (init (observers p' ! length (observers pageABC))) 800 5 300 40] docABC 2))"
proof -
  have a: "getElementById pageABC ''toc'' = Some 0"
    by (simp add: page_defs)
  have b: "querySelectorAll pageABC ''h2[id], h3[id]'' \<noteq> []"
    by (simp add: page_defs)
  have c: "intersectionObserverDefined pageABC"
    by (simp add: page_defs)
  have q: "querySelectorAllIn pageABC 0 ''a'' = [1, 2, 3]"
    by (simp add: page_defs)
  have r: "hostReports tocOptions 800 150 40" "\<not> hostReports tocOptions 800 300 40"
    by (simp_all add: hostReports_toc)
  have hr: "href (docABC 2) = Some (fragmentOf (docABC 5))"
    by (simp add: sample_defs read_defs)
  have m: "(2::nat) \<in> set [1, 2, 3]" by simp
  from C8_toc_observer_root_margin [OF a b c, of 800 150 40 300 40 5 docABC]
  obtain p' where p: "initTOC pageABC = Inr p'"
      "length (observers p') = Suc (length (observers pageABC))"
      "callback (observers p' ! length (observers pageABC)) = TocCallback [1, 2, 3]"
      "init (observers p' ! length (observers pageABC)) = tocOptions"
    and out: "\<not> hostReports (init (observers p' ! length (observers pageABC))) 800 300 40 \<longrightarrow>
      tocCallback [1, 2, 3]
        [hostEntry (init (observers p' ! length (observers pageABC))) 800 5 300 40] docABC
        = docABC"
    and stay: "hostReports (init (observers p' ! length (observers pageABC))) 800 150 40 \<and>
      \<not> hostReports (init (observers p' ! length (observers pageABC))) 800 300 40 \<longrightarrow>
      (\<forall>l\<in>set [1, 2, 3].
         (isActive (tocCallback [1, 2, 3]
            [hostEntry (init (observers p' ! length (observers pageABC))) 800 5 150 40,
             hostEntry (init (observers p' ! length (observers pageABC))) 800 5 300 40] docABC l)
          \<longleftrightarrow> href (docABC l) = Some (fragmentOf (docABC 5))))"
    unfolding q by blast
  from out r p(4) have o: "tocCallback [1, 2, 3]
        [hostEntry (init (observers p' ! length (observers pageABC))) 800 5 300 40] docABC
        = docABC"
    by metis
  from stay r p(4) have "\<forall>l\<in>set [1, 2, 3].
         (isActive (tocCallback [1, 2, 3]
            [hostEntry (init (observers p' ! length (observers pageABC))) 800 5 150 40,
             hostEntry (init (observers p' ! length (observers pageABC))) 800 5 300 40] docABC l)
          \<longleftrightarrow> href (docABC l) = Some (fragmentOf (docABC 5)))"
    by metis
  from bspec [OF this m] hr
  have "isActive (tocCallback [1, 2, 3]
        [hostEntry (init (observers p' ! length (observers pageABC))) 800 5 150 40,
         hostEntry (init (observers p' ! length (observers pageABC))) 800 5 300 40] docABC 2)"
    by blast
  with p o a b c q r hr show ?thesis by blast
qed

text \<open>
  Claim C8 as stated fails in its last part: a heading does not count as active only
  inside the band. In a viewport 800px high the band is the line at 160. The heading
  with id \<open>b\<close> is reported at 150 (inside) and then at 300 (outside); after both
  reports the link to \<open>#b\<close> still carries the active marker and \<open>aria-current\<close>.
\<close>

theorem C8_counterexample:
  "\<not> hostReports tocOptions 800 300 40 \<and>
   isActive (tocCallback [1, 2, 3]
     [hostEntry tocOptions 800 5 150 40, hostEntry tocOptions 800 5 300 40] docABC 2) \<and>
   ariaCurrent (tocCallback [1, 2, 3]
     [hostEntry tocOptions 800 5 150 40, hostEntry tocOptions 800 5 300 40] docABC 2)
     = Some ''true''"
  by (simp add: hostReports_toc hostEntry_def sample_defs read_defs toc_defs)

section \<open>Claims about the storage wrapper\<close>

text \<open>
  Claim C6. For every key and every behaviour of the underlying store: when \<open>getItem\<close>
  raises, \<open>storage.get\<close> returns \<open>null\<close>; when \<open>setItem\<close> raises, \<open>storage.set\<close> returns
  normally and the store is as it was; and neither wrapper ever raises.
\<close>

theorem C6_storage_wrapper_swallows_errors:
  "(getItem ls s key = Inl e \<longrightarrow> storage_get ls s key = Inr None) \<and>
   (setItem ls s key v = Inl e' \<longrightarrow> storage_set ls s key v = Inr s) \<and>
   (\<exists>r. storage_get ls s key = Inr r) \<and>
   (\<exists>s'. storage_set ls s key v = Inr s')"
  by (simp add: storage_get_def storage_set_def split: sum.splits)

theorem C6_witness:
  "getItem localStorage deniedStore ''theme'' = Inl SecurityError \<and>
   setItem localStorage deniedStore ''theme'' ''light'' = Inl SecurityError \<and>
   setItem localStorage fullStore ''theme'' ''light'' = Inl QuotaExceededError \<and>
   storage_get localStorage deniedStore ''theme'' = Inr None \<and>
   storage_set localStorage deniedStore ''theme'' ''light'' = Inr deniedStore \<and>
   storage_set localStorage fullStore ''theme'' ''light'' = Inr fullStore"
proof -
  have a: "getItem localStorage deniedStore ''theme'' = Inl SecurityError"
    "setItem localStorage deniedStore ''theme'' ''light'' = Inl SecurityError"
    by (simp_all add: localStorage_def deniedStore_def)
  have b: "setItem localStorage fullStore ''theme'' ''light'' = Inl QuotaExceededError"
    by (simp add: localStorage_def fullStore_def storedSize_def)
  from C6_storage_wrapper_swallows_errors
         [of localStorage deniedStore "''theme''" SecurityError "''light''" SecurityError]
    C6_storage_wrapper_swallows_errors
         [of localStorage fullStore "''theme''" SecurityError "''light''" QuotaExceededError]
    a b
  show ?thesis by blast
qed

end
